theory Spec2Isabelle
  imports Main "HOL-Library.AList"
begin

section \<open>SharePoint2s3: the recursive folder copy\<close>

text \<open>
  A shallow embedding of \<^verbatim>\<open>sharepoint2s3.py\<close>: the path mapper
  (\<^verbatim>\<open>_get_relative_path\<close> and the key prefix set up by \<^verbatim>\<open>__init__\<close>) and the
  recursive walk \<^verbatim>\<open>copy_folder\<close> with its two \<^verbatim>\<open>try\<close> blocks.

  Python strings are \<open>string\<close>; the only character the code inspects is the ASCII
  separator \<open>/\<close>. Python integers are \<open>int\<close>. An exception is a value: every operation
  that can raise returns \<open>exc + 'a\<close>, with \<open>Inl\<close> the exception raised.
\<close>

subsection \<open>String operations of the standard library\<close>

definition lstrip :: "char \<Rightarrow> string \<Rightarrow> string" where
  \<comment> \<open>\<^verbatim>\<open>s.lstrip(c)\<close> for a one-character argument\<close>
  "lstrip c s = dropWhile (\<lambda>x. x = c) s"

definition rstrip :: "char \<Rightarrow> string \<Rightarrow> string" where
  \<comment> \<open>\<^verbatim>\<open>s.rstrip(c)\<close> for a one-character argument\<close>
  "rstrip c s = rev (dropWhile (\<lambda>x. x = c) (rev s))"

definition startswith :: "string \<Rightarrow> string \<Rightarrow> bool" where
  \<comment> \<open>\<^verbatim>\<open>s.startswith(p)\<close>\<close>
  "startswith s p = (take (length p) s = p)"

subsection \<open>Exceptions\<close>

text \<open>
  The values of \<open>exc\<close> are the instances of Python's \<^verbatim>\<open>Exception\<close>, which is what both
  handlers of \<^verbatim>\<open>copy_folder\<close> catch: a \<^verbatim>\<open>KeyError\<close> from a dictionary lookup, or any
  exception a collaborator raises, carried with its message. An interrupt of the process
  (\<^verbatim>\<open>KeyboardInterrupt\<close>, \<^verbatim>\<open>SystemExit\<close>) is not an \<^verbatim>\<open>Exception\<close> and is not a
  behaviour of a collaborator; it is outside this model.
\<close>

datatype exc = KeyError string | CollaboratorError string

fun str_exc :: "exc \<Rightarrow> string" where
  \<comment> \<open>\<^verbatim>\<open>str(e)\<close>; a \<^verbatim>\<open>KeyError\<close> prints the quoted key\<close>
  "str_exc (KeyError k) = [CHR 0x27] @ k @ [CHR 0x27]"
| "str_exc (CollaboratorError m) = m"

definition getitem :: "(string \<times> string) list \<Rightarrow> string \<Rightarrow> exc + string" where
  \<comment> \<open>\<^verbatim>\<open>d[k]\<close> on a dictionary: the value, or \<^verbatim>\<open>KeyError\<close>\<close>
  "getitem d k = (case map_of d k of None \<Rightarrow> Inl (KeyError k) | Some v \<Rightarrow> Inr v)"

subsection \<open>The objects of the source and the destination\<close>

type_synonym bytes = string

text \<open>
  A file or folder object of the SharePoint client is used only through its
  \<^verbatim>\<open>properties\<close> dictionary. A collection (\<^verbatim>\<open>folder.files\<close>, \<^verbatim>\<open>folder.folders\<close>) is
  used only by iterating it: it yields its items in order, and the iterator may then
  raise instead of stopping (\<open>iter_raises\<close>), as a collection that loads further pages on
  demand can.
\<close>

record client_object =
  properties :: "(string \<times> string) list"

record collection =
  items :: "client_object list"
  iter_raises :: "exc option"

record folder =
  files :: collection
  folders :: collection

text \<open>
  The instance: the fields \<^verbatim>\<open>__init__\<close> sets, and the behaviour of the two clients.
  \<open>site_url\<close> is the value of \<^verbatim>\<open>urlparse(self.sharepoint_url).path\<close>, which both
  \<^verbatim>\<open>_get_relative_path\<close> and \<^verbatim>\<open>start_transfer\<close> compute first; the standard library's
  parser is taken as given. \<open>get_folder\<close> is the outcome of lines 115 to 119 (resolving
  the folder, loading it and its two collections, executing the query) for a folder URL;
  \<open>open_binary\<close> is \<^verbatim>\<open>File.open_binary(self.ctx, url)\<close>; \<open>put_object_raises\<close> tells
  whether \<^verbatim>\<open>self.s3_client.put_object(Bucket, Key, Body)\<close> raises. Each of the three may
  fail on any argument; what a client answers depends on the arguments of the call only
  (the source is read during a run, not changed).
\<close>

record SharePointToS3 =
  site_url :: string
  s3_bucket :: string
  s3_prefix :: string
  get_folder :: "string \<Rightarrow> exc + folder"
  open_binary :: "string \<Rightarrow> exc + bytes"
  put_object_raises :: "string \<Rightarrow> string \<Rightarrow> bytes \<Rightarrow> exc option"

text \<open>
  What the run changes outside the instance: the objects of the destination store, keyed
  by bucket and key; every call of \<^verbatim>\<open>put_object\<close>, in order; every folder URL handed to
  the source for resolution, in order; and the log.
\<close>

datatype level = INFO | ERROR

record world =
  s3_objects :: "((string \<times> string) \<times> bytes) list"
  put_calls :: "(string \<times> string \<times> bytes) list"
  get_folder_calls :: "string list"
  logged :: "(level \<times> string) list"

definition logger :: "level \<Rightarrow> string \<Rightarrow> world \<Rightarrow> world" where
  \<comment> \<open>\<^verbatim>\<open>logger.info(msg)\<close>, \<^verbatim>\<open>logger.error(msg)\<close>: a record is appended; the
      \<^verbatim>\<open>logging\<close> module does not raise into its caller\<close>
  "logger l msg w = w\<lparr>logged := logged w @ [(l, msg)]\<rparr>"

subsection \<open>The path mapper\<close>

definition init_s3_prefix :: "string \<Rightarrow> string" where
  \<comment> \<open>line 47: \<^verbatim>\<open>s3_prefix.rstrip('/') + '/' if s3_prefix else ""\<close>\<close>
  "init_s3_prefix p = (if p \<noteq> [] then rstrip CHR ''/'' p @ ''/'' else [])"

definition get_relative_path :: "SharePointToS3 \<Rightarrow> string \<Rightarrow> string" where
  \<comment> \<open>\<^verbatim>\<open>_get_relative_path\<close>, lines 95 to 98\<close>
  "get_relative_path self sharepoint_path =
     (if startswith sharepoint_path (site_url self)
      then lstrip CHR ''/'' (drop (length (site_url self)) sharepoint_path)
      else lstrip CHR ''/'' sharepoint_path)"

definition s3_key :: "SharePointToS3 \<Rightarrow> string \<Rightarrow> string" where
  \<comment> \<open>lines 124 and 125: \<^verbatim>\<open>f"{self.s3_prefix}{relative_path}"\<close>\<close>
  "s3_key self url = s3_prefix self @ get_relative_path self url"

subsection \<open>The result counts\<close>

definition merge :: "int \<times> int \<Rightarrow> int \<times> int \<Rightarrow> int \<times> int" where
  \<comment> \<open>lines 147 and 148: \<^verbatim>\<open>success_count += sub_success; error_count += sub_error\<close>\<close>
  "merge c r = (fst c + fst r, snd c + snd r)"

subsection \<open>Copying one file\<close>

definition put_object :: "SharePointToS3 \<Rightarrow> string \<Rightarrow> string \<Rightarrow> bytes \<Rightarrow> world \<Rightarrow> (exc + unit) \<times> world" where
  \<comment> \<open>one call of the destination client: it raises, or the object under the key is replaced\<close>
  "put_object self bucket key body w =
     (let w' = w\<lparr>put_calls := put_calls w @ [(bucket, key, body)]\<rparr>
      in case put_object_raises self bucket key body of
           Some e \<Rightarrow> (Inl e, w')
         | None \<Rightarrow> (Inr (), w'\<lparr>s3_objects := AList.update (bucket, key) body (s3_objects w')\<rparr>))"

definition copy_file_try :: "SharePointToS3 \<Rightarrow> client_object \<Rightarrow> world \<Rightarrow> (exc + unit) \<times> world" where
  \<comment> \<open>the body of the inner \<^verbatim>\<open>try\<close>, lines 124 to 136\<close>
  "copy_file_try self file_obj w =
     (case getitem (properties file_obj) ''ServerRelativeUrl'' of
        Inl e \<Rightarrow> (Inl e, w)
      | Inr url \<Rightarrow>
          (let relative_path = get_relative_path self url;
               key = s3_prefix self @ relative_path
           in case open_binary self url of
                Inl e \<Rightarrow> (Inl e, w)
              | Inr file_content \<Rightarrow>
                  put_object self (s3_bucket self) key file_content
                    (logger INFO (''Copying file: '' @ relative_path @ '' -> s3://''
                       @ s3_bucket self @ ''/'' @ key) w)))"

datatype outcome = Success | Error

definition copy_file :: "SharePointToS3 \<Rightarrow> client_object \<Rightarrow> world \<Rightarrow> (exc + outcome) \<times> world" where
  \<comment> \<open>one iteration of the file loop, lines 123 to 140: the inner \<^verbatim>\<open>try\<close> and its handler,
      whose message looks the URL up again and so may raise itself\<close>
  "copy_file self file_obj w =
     (case copy_file_try self file_obj w of
        (Inr _, w') \<Rightarrow> (Inr Success, w')
      | (Inl e, w') \<Rightarrow>
          (case getitem (properties file_obj) ''ServerRelativeUrl'' of
             Inl e' \<Rightarrow> (Inl e', w')
           | Inr url \<Rightarrow>
               (Inr Error, logger ERROR (''Error copying file '' @ url @ '': '' @ str_exc e) w')))"

subsection \<open>The two loops and the walk\<close>

text \<open>
  A loop returns the exception that left it, if any, with the counters and the world as
  they were at that moment: the handler of the outer \<^verbatim>\<open>try\<close> reads the counters.
\<close>

fun files_loop :: "SharePointToS3 \<Rightarrow> client_object list \<Rightarrow> int \<times> int \<Rightarrow> world
    \<Rightarrow> exc option \<times> (int \<times> int) \<times> world" where
  "files_loop self [] c w = (None, c, w)"
| "files_loop self (file_obj # rest) c w =
     (case copy_file self file_obj w of
        (Inl e, w') \<Rightarrow> (Some e, c, w')
      | (Inr Success, w') \<Rightarrow> files_loop self rest (fst c + 1, snd c) w'
      | (Inr Error, w') \<Rightarrow> files_loop self rest (fst c, snd c + 1) w')"

definition for_files :: "SharePointToS3 \<Rightarrow> collection \<Rightarrow> int \<times> int \<Rightarrow> world
    \<Rightarrow> exc option \<times> (int \<times> int) \<times> world" where
  \<comment> \<open>\<^verbatim>\<open>for file_obj in folder.files\<close>, lines 122 to 140\<close>
  "for_files self coll c w =
     (case files_loop self (items coll) c w of
        (None, c', w') \<Rightarrow> (iter_raises coll, c', w')
      | (Some e, c', w') \<Rightarrow> (Some e, c', w'))"

definition special_folders :: "string list" where
  "special_folders = [''.'', ''..'', ''Forms'']"

text \<open>
  The recursive call is a parameter \<open>rec\<close> of the subfolder loop; \<open>None\<close> is a call that
  does not return.
\<close>

fun folders_loop :: "(string \<Rightarrow> world \<Rightarrow> ((exc + int \<times> int) \<times> world) option)
    \<Rightarrow> client_object list \<Rightarrow> int \<times> int \<Rightarrow> world
    \<Rightarrow> (exc option \<times> (int \<times> int) \<times> world) option" where
  "folders_loop rec [] c w = Some (None, c, w)"
| "folders_loop rec (subfolder # rest) c w =
     (case getitem (properties subfolder) ''Name'' of
        Inl e \<Rightarrow> Some (Some e, c, w)
      | Inr name \<Rightarrow>
          if name \<notin> set special_folders
          then (case getitem (properties subfolder) ''ServerRelativeUrl'' of
                  Inl e \<Rightarrow> Some (Some e, c, w)
                | Inr subfolder_url \<Rightarrow>
                    (case rec subfolder_url w of
                       None \<Rightarrow> None
                     | Some (Inl e, w') \<Rightarrow> Some (Some e, c, w')
                     | Some (Inr r, w') \<Rightarrow> folders_loop rec rest (merge c r) w'))
          else folders_loop rec rest c w)"

definition for_folders :: "(string \<Rightarrow> world \<Rightarrow> ((exc + int \<times> int) \<times> world) option)
    \<Rightarrow> collection \<Rightarrow> int \<times> int \<Rightarrow> world
    \<Rightarrow> (exc option \<times> (int \<times> int) \<times> world) option" where
  \<comment> \<open>\<^verbatim>\<open>for subfolder in folder.folders\<close>, lines 143 to 148\<close>
  "for_folders rec coll c w =
     (case folders_loop rec (items coll) c w of
        None \<Rightarrow> None
      | Some (None, c', w') \<Rightarrow> Some (iter_raises coll, c', w')
      | Some (Some e, c', w') \<Rightarrow> Some (Some e, c', w'))"

definition folder_handler :: "string \<Rightarrow> exc \<Rightarrow> int \<times> int \<Rightarrow> world \<Rightarrow> (exc + int \<times> int) \<times> world" where
  \<comment> \<open>the handler of the outer \<^verbatim>\<open>try\<close>, lines 152 to 154\<close>
  "folder_handler folder_url e c w =
     (Inr (fst c, snd c + 1),
      logger ERROR (''Error processing folder '' @ folder_url @ '': '' @ str_exc e) w)"

text \<open>
  \<^verbatim>\<open>copy_folder\<close> recurses as deep as the source's folders go, which nothing in the code
  bounds. The first argument is the number of nested calls allowed; \<open>None\<close> is a run that
  needs more, so a walk that never returns is \<open>None\<close> at every number.
\<close>

primrec copy_folder :: "nat \<Rightarrow> SharePointToS3 \<Rightarrow> string \<Rightarrow> world \<Rightarrow> ((exc + int \<times> int) \<times> world) option" where
  "copy_folder 0 self folder_url w = None"
| "copy_folder (Suc n) self folder_url w =
     (let w0 = w\<lparr>get_folder_calls := get_folder_calls w @ [folder_url]\<rparr>
      in case get_folder self folder_url of
           Inl e \<Rightarrow> Some (folder_handler folder_url e (0, 0) w0)
         | Inr folder \<Rightarrow>
             (case for_files self (files folder) (0, 0) w0 of
                (Some e, c, w1) \<Rightarrow> Some (folder_handler folder_url e c w1)
              | (None, c, w1) \<Rightarrow>
                  (case for_folders (copy_folder n self) (folders folder) c w1 of
                     None \<Rightarrow> None
                   | Some (Some e, c', w2) \<Rightarrow> Some (folder_handler folder_url e c' w2)
                   | Some (None, c', w2) \<Rightarrow> Some (Inr c', w2))))"

subsection \<open>Predicates used to state the properties\<close>


text \<open>
  \<open>fetch_or_write_fails self file_obj\<close>: copying this file fails, at the fetch or at the
  write. This is the specification's count \<open>k\<close>, not a function of the source.
\<close>

definition fetch_or_write_fails :: "SharePointToS3 \<Rightarrow> client_object \<Rightarrow> bool" where
  "fetch_or_write_fails self file_obj =
     (case getitem (properties file_obj) ''ServerRelativeUrl'' of
        Inl e \<Rightarrow> True
      | Inr url \<Rightarrow>
          (case open_binary self url of
             Inl e \<Rightarrow> True
           | Inr file_content \<Rightarrow>
               put_object_raises self (s3_bucket self) (s3_key self url) file_content \<noteq> None))"


text \<open>
  \<open>carries_path obj\<close>: the object's dictionary has the key \<^verbatim>\<open>ServerRelativeUrl\<close>, as
  every descriptor the source hands out is specified to.
\<close>

definition carries_path :: "client_object \<Rightarrow> bool" where
  "carries_path obj = (map_of (properties obj) ''ServerRelativeUrl'' \<noteq> None)"

text \<open>
  \<open>folder_target subfolder\<close>: what lines 144 and 145 decide for one subfolder before any
  recursive call: an exception from a lookup, \<open>None\<close> for a name in the skip list, or the
  URL to recurse into.
\<close>

definition folder_target :: "client_object \<Rightarrow> exc + string option" where
  "folder_target subfolder =
     (case getitem (properties subfolder) ''Name'' of
        Inl e \<Rightarrow> Inl e
      | Inr name \<Rightarrow>
          if name \<notin> set special_folders
          then (case getitem (properties subfolder) ''ServerRelativeUrl'' of
                  Inl e \<Rightarrow> Inl e
                | Inr subfolder_url \<Rightarrow> Inr (Some subfolder_url))
          else Inr None)"




subsection \<open>A site for the examples\<close>

text \<open>
  The site of the repository's tests: the library \<^verbatim>\<open>Shared Documents\<close> holds two files,
  the hidden folder \<^verbatim>\<open>Forms\<close> and a folder \<^verbatim>\<open>sub\<close>; reading \<^verbatim>\<open>file2.txt\<close> raises.
  \<^verbatim>\<open>Flat\<close> holds the two files and no folder. \<^verbatim>\<open>Broken\<close> lists, between the two
  files, an object without a URL; \<^verbatim>\<open>Unnamed\<close> lists, between two folders, an object
  without a name.
\<close>

definition file_at :: "string \<Rightarrow> string \<Rightarrow> client_object" where
  "file_at dir name = \<lparr>properties = [(''ServerRelativeUrl'', dir @ ''/'' @ name), (''Name'', name)]\<rparr>"

definition docs :: string where
  "docs = ''/sites/test/Shared Documents''"

definition listing :: "client_object list \<Rightarrow> client_object list \<Rightarrow> folder" where
  "listing fs sfs = \<lparr>files = \<lparr>items = fs, iter_raises = None\<rparr>,
                     folders = \<lparr>items = sfs, iter_raises = None\<rparr>\<rparr>"

definition example_get_folder :: "string \<Rightarrow> exc + folder" where
  "example_get_folder url =
     (if url = docs
      then Inr (listing [file_at docs ''file1.txt'', file_at docs ''file2.txt'']
                        [file_at docs ''Forms'', file_at docs ''sub''])
      else if url = docs @ ''/sub''
      then Inr (listing [file_at (docs @ ''/sub'') ''file3.txt''] [])
      else if url = docs @ ''/Forms''
      then Inr (listing [file_at (docs @ ''/Forms'') ''template.dotx''] [])
      else if url = ''/sites/test/Flat''
      then Inr (listing [file_at docs ''file1.txt'', file_at docs ''file2.txt''] [])
      else if url = ''/sites/test/Broken''
      then Inr (listing [file_at docs ''file1.txt'', \<lparr>properties = [(''Name'', ''lost.txt'')]\<rparr>,
                         file_at docs ''file3.txt'']
                        [file_at docs ''sub''])
      else if url = ''/sites/test/Unnamed''
      then Inr (listing [file_at docs ''file1.txt'']
                        [file_at docs ''sub'', \<lparr>properties = []\<rparr>, file_at docs ''sub''])
      else Inl (CollaboratorError ''File Not Found''))"

definition example_site :: SharePointToS3 where
  "example_site =
     \<lparr>site_url = ''/sites/test'', s3_bucket = ''test-bucket'',
      s3_prefix = init_s3_prefix ''test-prefix'',
      get_folder = example_get_folder,
      open_binary = (\<lambda>url. if url = docs @ ''/file2.txt''
                           then Inl (CollaboratorError ''Test error'')
                           else Inr ''test file content''),
      put_object_raises = (\<lambda>bucket key body. None)\<rparr>"

definition empty_world :: world where
  "empty_world = \<lparr>s3_objects = [], put_calls = [], get_folder_calls = [], logged = []\<rparr>"

text \<open>A destination that already holds an object under the key of \<^verbatim>\<open>file1.txt\<close>.\<close>

definition stale_world :: world where
  "stale_world = empty_world\<lparr>s3_objects :=
     [((''test-bucket'', ''test-prefix/Shared Documents/file1.txt''), ''an older and longer content'')]\<rparr>"

section \<open>Properties\<close>

subsection \<open>The path mapper\<close>

lemma takeWhile_eq_replicate:
  "takeWhile (\<lambda>x. x = c) s = replicate (length (takeWhile (\<lambda>x. x = c) s)) c"
  by (induction s) auto

lemma lstrip_decomp: "s = replicate (length (takeWhile (\<lambda>x. x = c) s)) c @ lstrip c s"
proof -
  have "s = takeWhile (\<lambda>x. x = c) s @ dropWhile (\<lambda>x. x = c) s" by simp
  then show ?thesis unfolding lstrip_def using takeWhile_eq_replicate[of c s] by metis
qed

lemma lstrip_no_lead: "lstrip c s = [] \<or> hd (lstrip c s) \<noteq> c"
  unfolding lstrip_def using hd_dropWhile[of "\<lambda>x. x = c" s] by blast

lemma rstrip_no_trail: "rstrip c s = [] \<or> last (rstrip c s) \<noteq> c"
proof -
  let ?d = "dropWhile (\<lambda>x. x = c) (rev s)"
  have "?d = [] \<or> hd ?d \<noteq> c" using hd_dropWhile[of "\<lambda>x. x = c" "rev s"] by blast
  then show ?thesis unfolding rstrip_def by (auto simp: last_rev)
qed

lemma startswith_decomp: "startswith s p \<Longrightarrow> s = p @ drop (length p) s"
  unfolding startswith_def by (metis append_take_drop_id)

lemma relative_path_no_lead:
  "get_relative_path self url = [] \<or> hd (get_relative_path self url) \<noteq> CHR ''/''"
  unfolding get_relative_path_def using lstrip_no_lead by simp

text \<open>
  C4. When the path starts with the site's root, the result is the path without the root
  and without the separators that follow it, and nothing else is removed: the path is
  the root, then some separators, then the result. Otherwise the path is some
  separators, then the result. The result never starts with a separator. The function
  is total: it returns a string for every pair of strings.
\<close>

theorem get_relative_path_strips:
  "(startswith P (site_url self) \<longrightarrow>
      (\<exists>k. P = site_url self @ replicate k CHR ''/'' @ get_relative_path self P))
   \<and> (\<not> startswith P (site_url self) \<longrightarrow>
      (\<exists>k. P = replicate k CHR ''/'' @ get_relative_path self P))
   \<and> (get_relative_path self P = [] \<or> hd (get_relative_path self P) \<noteq> CHR ''/'')"
proof (intro conjI impI)
  assume sw: "startswith P (site_url self)"
  let ?rest = "drop (length (site_url self)) P"
  let ?k = "length (takeWhile (\<lambda>x. x = CHR ''/'') ?rest)"
  have "P = site_url self @ ?rest" using startswith_decomp[OF sw] .
  moreover have "?rest = replicate ?k CHR ''/'' @ lstrip CHR ''/'' ?rest"
    by (rule lstrip_decomp)
  ultimately have "P = site_url self @ replicate ?k CHR ''/'' @ get_relative_path self P"
    using sw by (simp add: get_relative_path_def)
  then show "\<exists>k. P = site_url self @ replicate k CHR ''/'' @ get_relative_path self P" by blast
next
  assume nsw: "\<not> startswith P (site_url self)"
  let ?k = "length (takeWhile (\<lambda>x. x = CHR ''/'') P)"
  have "P = replicate ?k CHR ''/'' @ lstrip CHR ''/'' P"
    by (rule lstrip_decomp)
  then have "P = replicate ?k CHR ''/'' @ get_relative_path self P"
    using nsw by (simp add: get_relative_path_def)
  then show "\<exists>k. P = replicate k CHR ''/'' @ get_relative_path self P" by blast
next
  show "get_relative_path self P = [] \<or> hd (get_relative_path self P) \<noteq> CHR ''/''"
    by (rule relative_path_no_lead)
qed

theorem get_relative_path_strips_witness:
  "startswith ''/sites/test/Shared Documents/file1.txt'' (site_url example_site)
   \<and> (\<exists>k. ''/sites/test/Shared Documents/file1.txt''
          = site_url example_site @ replicate k CHR ''/''
            @ get_relative_path example_site ''/sites/test/Shared Documents/file1.txt'')
   \<and> \<not> startswith ''//Shared Documents/file1.txt'' (site_url example_site)
   \<and> (\<exists>k. ''//Shared Documents/file1.txt''
          = replicate k CHR ''/'' @ get_relative_path example_site ''//Shared Documents/file1.txt'')"
proof -
  have a: "startswith ''/sites/test/Shared Documents/file1.txt'' (site_url example_site)"
    by (simp add: startswith_def example_site_def)
  have b: "\<not> startswith ''//Shared Documents/file1.txt'' (site_url example_site)"
    by (simp add: startswith_def example_site_def)
  show ?thesis
    using a b get_relative_path_strips [where P = "''/sites/test/Shared Documents/file1.txt''" and self = example_site]
      get_relative_path_strips [where P = "''//Shared Documents/file1.txt''" and self = example_site]
    by blast
qed


text \<open>
  C5. For every configured prefix \<open>p\<close> and every source path, the key is the prefix as
  \<^verbatim>\<open>__init__\<close> normalises it followed by the relative path. The normalised prefix is
  empty when \<open>p\<close> is, and otherwise ends in a separator that no second separator
  precedes; the relative path never starts with one. So the junction has exactly one
  separator when there is a prefix and none when there is not.
\<close>

theorem destination_key_junction:
  "s3_key (self\<lparr>s3_prefix := init_s3_prefix p\<rparr>) url = init_s3_prefix p @ get_relative_path self url
   \<and> (p = [] \<longrightarrow> init_s3_prefix p = [])
   \<and> (p \<noteq> [] \<longrightarrow> (\<exists>q. init_s3_prefix p = q @ ''/'' \<and> (q = [] \<or> last q \<noteq> CHR ''/'')))
   \<and> (get_relative_path self url = [] \<or> hd (get_relative_path self url) \<noteq> CHR ''/'')"
proof -
  have "get_relative_path (self\<lparr>s3_prefix := init_s3_prefix p\<rparr>) url = get_relative_path self url"
    by (simp add: get_relative_path_def)
  moreover have "p \<noteq> [] \<longrightarrow> (\<exists>q. init_s3_prefix p = q @ ''/'' \<and> (q = [] \<or> last q \<noteq> CHR ''/''))"
    using rstrip_no_trail[of "CHR ''/''" p] by (auto simp: init_s3_prefix_def)
  moreover have "get_relative_path self url = [] \<or> hd (get_relative_path self url) \<noteq> CHR ''/''"
    by (rule relative_path_no_lead)
  ultimately show ?thesis by (simp add: s3_key_def init_s3_prefix_def)
qed

theorem destination_key_junction_witness:
  "''test-prefix//'' \<noteq> []
   \<and> s3_key (example_site\<lparr>s3_prefix := init_s3_prefix ''test-prefix//''\<rparr>) (docs @ ''/file1.txt'')
       = ''test-prefix/Shared Documents/file1.txt''
   \<and> (\<exists>q. init_s3_prefix ''test-prefix//'' = q @ ''/'' \<and> (q = [] \<or> last q \<noteq> CHR ''/''))
   \<and> s3_key (example_site\<lparr>s3_prefix := init_s3_prefix []\<rparr>) (docs @ ''/file1.txt'')
       = ''Shared Documents/file1.txt''"
proof -
  let ?url = "docs @ ''/file1.txt''"
  have a: "''test-prefix//'' \<noteq> []" by simp
  have r: "get_relative_path example_site ?url = ''Shared Documents/file1.txt''"
    by (simp add: get_relative_path_def startswith_def example_site_def lstrip_def docs_def)
  have p: "init_s3_prefix ''test-prefix//'' = ''test-prefix/''"
    by (simp add: init_s3_prefix_def rstrip_def)
  note full = destination_key_junction [where self = example_site and p = "''test-prefix//''" and url = ?url]
  note none = destination_key_junction [where self = example_site and p = "[]" and url = ?url]
  from full have "s3_key (example_site\<lparr>s3_prefix := init_s3_prefix ''test-prefix//''\<rparr>) ?url
      = init_s3_prefix ''test-prefix//'' @ get_relative_path example_site ?url" by (rule conjunct1)
  with r p have k1: "s3_key (example_site\<lparr>s3_prefix := init_s3_prefix ''test-prefix//''\<rparr>) ?url
      = ''test-prefix/Shared Documents/file1.txt''" by simp
  from full a have q: "\<exists>q. init_s3_prefix ''test-prefix//'' = q @ ''/'' \<and> (q = [] \<or> last q \<noteq> CHR ''/'')"
    by blast
  from none have "s3_key (example_site\<lparr>s3_prefix := init_s3_prefix []\<rparr>) ?url
      = init_s3_prefix [] @ get_relative_path example_site ?url" by (rule conjunct1)
  moreover from none have "init_s3_prefix [] = []" by blast
  ultimately have k2: "s3_key (example_site\<lparr>s3_prefix := init_s3_prefix []\<rparr>) ?url
      = ''Shared Documents/file1.txt''" using r by simp
  from a k1 q k2 show ?thesis by blast
qed

subsection \<open>The result counts\<close>

text \<open>
  C7. Merging two results adds the counts componentwise; it is associative and
  commutative, and \<open>(0, 0)\<close> is its identity.
\<close>

theorem merge_monoid:
  "merge (merge a b) c = merge a (merge b c) \<and> merge a b = merge b a \<and> merge (0, 0) x = x
   \<and> merge (s, e) (s', e') = (s + s', e + e')"
  by (simp add: merge_def)

subsection \<open>Copying one file\<close>

lemma copy_file_try_cases:
  assumes "getitem (properties f) ''ServerRelativeUrl'' = Inr url"
  shows "copy_file_try self f w =
     (case open_binary self url of
        Inl e \<Rightarrow> (Inl e, w)
      | Inr file_content \<Rightarrow>
          put_object self (s3_bucket self) (s3_key self url) file_content
            (logger INFO (''Copying file: '' @ get_relative_path self url @ '' -> s3://''
               @ s3_bucket self @ ''/'' @ s3_key self url) w))"
  using assms by (simp add: copy_file_try_def s3_key_def Let_def split: sum.splits)

lemma copy_file_outcome:
  assumes "getitem (properties f) ''ServerRelativeUrl'' = Inr url"
  shows "\<exists>w'. copy_file self f w = (Inr (if fetch_or_write_fails self f then Error else Success), w')"
  using assms
  by (auto simp: copy_file_def copy_file_try_cases fetch_or_write_fails_def put_object_def Let_def
      split: sum.splits option.splits)

subsection \<open>The walk returns, and returns counts\<close>









lemmas example_defs = example_site_def example_get_folder_def docs_def listing_def file_at_def
  empty_world_def getitem_def special_folders_def



subsection \<open>A folder that cannot be listed\<close>

text \<open>
  C2. When resolving or listing the folder fails, \<^verbatim>\<open>copy_folder\<close> returns \<open>(0, 1)\<close>:
  the failure is not passed on as an exception, nothing is written to the destination
  (no call of \<^verbatim>\<open>put_object\<close>, the stored objects unchanged), the source is asked for
  no other folder, and the failure is logged once.
\<close>

theorem listing_failure_is_one_error:
  assumes "get_folder self folder_url = Inl e"
  shows "\<exists>w'. copy_folder (Suc n) self folder_url w = Some (Inr (0, 1), w')
           \<and> put_calls w' = put_calls w \<and> s3_objects w' = s3_objects w
           \<and> get_folder_calls w' = get_folder_calls w @ [folder_url]
           \<and> logged w' = logged w @ [(ERROR, ''Error processing folder '' @ folder_url @ '': '' @ str_exc e)]"
  using assms by (simp add: folder_handler_def logger_def)

theorem listing_failure_is_one_error_witness:
  "get_folder example_site ''/sites/test/Nowhere'' = Inl (CollaboratorError ''File Not Found'')
   \<and> (\<exists>w'. copy_folder (Suc 0) example_site ''/sites/test/Nowhere'' empty_world = Some (Inr (0, 1), w')
          \<and> put_calls w' = [] \<and> s3_objects w' = [])"
proof -
  have h: "get_folder example_site ''/sites/test/Nowhere'' = Inl (CollaboratorError ''File Not Found'')"
    by (simp add: example_defs)
  from listing_failure_is_one_error [OF h, where n = 0 and w = empty_world]
  show ?thesis using h by (auto simp: empty_world_def)
qed

subsection \<open>A folder of files only\<close>

lemma carries_path_getitem: "carries_path f \<Longrightarrow> \<exists>url. getitem (properties f) ''ServerRelativeUrl'' = Inr url"
  by (auto simp: carries_path_def getitem_def)

lemma files_loop_counts:
  "list_all carries_path fs \<Longrightarrow>
   \<exists>w'. files_loop self fs c w =
     (None, (fst c + int (length fs) - int (length (filter (fetch_or_write_fails self) fs)),
             snd c + int (length (filter (fetch_or_write_fails self) fs))), w')"
proof (induction fs arbitrary: c w)
  case Nil
  then show ?case by simp
next
  case (Cons f fs)
  from Cons.prems have cf: "carries_path f" and rest: "list_all carries_path fs" by simp_all
  from carries_path_getitem[OF cf] obtain url where u: "getitem (properties f) ''ServerRelativeUrl'' = Inr url" ..
  from copy_file_outcome[OF u, of self w] obtain w1 where
    o: "copy_file self f w = (Inr (if fetch_or_write_fails self f then Error else Success), w1)" ..
  show ?case
  proof (cases "fetch_or_write_fails self f")
    case True
    from Cons.IH[OF rest, of "(fst c, snd c + 1)" w1] obtain w' where
      "files_loop self fs (fst c, snd c + 1) w1 =
        (None, (fst (fst c, snd c + 1) + int (length fs) - int (length (filter (fetch_or_write_fails self) fs)),
                snd (fst c, snd c + 1) + int (length (filter (fetch_or_write_fails self) fs))), w')" ..
    with o True show ?thesis by simp
  next
    case False
    from Cons.IH[OF rest, of "(fst c + 1, snd c)" w1] obtain w' where
      "files_loop self fs (fst c + 1, snd c) w1 =
        (None, (fst (fst c + 1, snd c) + int (length fs) - int (length (filter (fetch_or_write_fails self) fs)),
                snd (fst c + 1, snd c) + int (length (filter (fetch_or_write_fails self) fs))), w')" ..
    with o False show ?thesis by simp
  qed
qed

text \<open>
  C3. A folder that lists \<open>N\<close> files, each carrying its path, and no subfolder gives
  \<open>(N - k, k)\<close>, where \<open>k\<close> is the number of its files whose fetch or write fails: every
  file is processed, a failing one adds one error and the others one success each.
\<close>

theorem flat_folder_counts:
  assumes "get_folder self folder_url = Inr fld"
    and "files fld = \<lparr>items = fs, iter_raises = None\<rparr>"
    and "folders fld = \<lparr>items = [], iter_raises = None\<rparr>"
    and "list_all carries_path fs"
  shows "\<exists>w'. copy_folder (Suc n) self folder_url w =
     Some (Inr (int (length fs) - int (length (filter (fetch_or_write_fails self) fs)),
                int (length (filter (fetch_or_write_fails self) fs))), w')"
proof -
  let ?w0 = "w\<lparr>get_folder_calls := get_folder_calls w @ [folder_url]\<rparr>"
  from files_loop_counts[OF assms(4), of self "(0, 0)" ?w0] obtain w1 where
    "files_loop self fs (0, 0) ?w0 =
       (None, (int (length fs) - int (length (filter (fetch_or_write_fails self) fs)),
               int (length (filter (fetch_or_write_fails self) fs))), w1)" by auto
  with assms(1-3) show ?thesis by (simp add: for_files_def for_folders_def)
qed

theorem flat_folder_counts_witness:
  "get_folder example_site ''/sites/test/Flat''
     = Inr (listing [file_at docs ''file1.txt'', file_at docs ''file2.txt''] [])
   \<and> list_all carries_path [file_at docs ''file1.txt'', file_at docs ''file2.txt'']
   \<and> length (filter (fetch_or_write_fails example_site) [file_at docs ''file1.txt'', file_at docs ''file2.txt'']) = 1
   \<and> (\<exists>w'. copy_folder (Suc 0) example_site ''/sites/test/Flat'' empty_world = Some (Inr (1, 1), w'))"
proof -
  let ?fs = "[file_at docs ''file1.txt'', file_at docs ''file2.txt'']"
  have g: "get_folder example_site ''/sites/test/Flat'' = Inr (listing ?fs [])"
    by (simp add: example_site_def example_get_folder_def docs_def)
  have f: "files (listing ?fs []) = \<lparr>items = ?fs, iter_raises = None\<rparr>"
    and s: "folders (listing ?fs []) = \<lparr>items = [], iter_raises = None\<rparr>"
    by (simp_all add: listing_def)
  have c: "list_all carries_path ?fs" by (simp add: carries_path_def file_at_def)
  have k: "length (filter (fetch_or_write_fails example_site) ?fs) = 1"
    by (simp add: fetch_or_write_fails_def example_defs)
  from flat_folder_counts [OF g f s c, where n = 0 and w = empty_world] k
  have "\<exists>w'. copy_folder (Suc 0) example_site ''/sites/test/Flat'' empty_world = Some (Inr (1, 1), w')"
    by simp
  with g c k show ?thesis by blast
qed

subsection \<open>The subfolder loop\<close>

lemma get_relative_path_ignores_source [simp]:
  "get_relative_path (self\<lparr>get_folder := g\<rparr>) url = get_relative_path self url"
  by (simp add: get_relative_path_def)

lemma put_object_ignores_source [simp]:
  "put_object (self\<lparr>get_folder := g\<rparr>) bucket key body w = put_object self bucket key body w"
  by (simp add: put_object_def)

lemma copy_file_try_ignores_source [simp]:
  "copy_file_try (self\<lparr>get_folder := g\<rparr>) f w = copy_file_try self f w"
  by (simp add: copy_file_try_def Let_def split: sum.splits)

lemma copy_file_ignores_source [simp]:
  "copy_file (self\<lparr>get_folder := g\<rparr>) f w = copy_file self f w"
  by (simp add: copy_file_def)

lemma files_loop_ignores_source [simp]:
  "files_loop (self\<lparr>get_folder := g\<rparr>) fs c w = files_loop self fs c w"
  by (induction fs arbitrary: c w) (simp_all split: prod.splits sum.splits outcome.splits)

lemma for_files_ignores_source [simp]:
  "for_files (self\<lparr>get_folder := g\<rparr>) coll c w = for_files self coll c w"
  by (simp add: for_files_def)

lemma folders_loop_step:
  "folders_loop rec (subfolder # rest) c w =
     (case folder_target subfolder of
        Inl e \<Rightarrow> Some (Some e, c, w)
      | Inr None \<Rightarrow> folders_loop rec rest c w
      | Inr (Some subfolder_url) \<Rightarrow>
          (case rec subfolder_url w of
             None \<Rightarrow> None
           | Some (Inl e, w') \<Rightarrow> Some (Some e, c, w')
           | Some (Inr r, w') \<Rightarrow> folders_loop rec rest (merge c r) w'))"
  by (simp add: folder_target_def split: sum.splits)




text \<open>
  The depth allowed only decides whether a run is cut short: a run that returns within
  \<open>n\<close> nested calls returns the same result and the same world within more.
\<close>

lemma folders_loop_more_depth:
  assumes rec: "\<And>u v r. rec u v = Some r \<Longrightarrow> rec' u v = Some r"
  shows "folders_loop rec sfs c w = Some t \<Longrightarrow> folders_loop rec' sfs c w = Some t"
proof (induction sfs arbitrary: c w)
  case Nil
  then show ?case by simp
next
  case (Cons sf sfs)
  show ?case
  proof (cases "folder_target sf")
    case (Inl e)
    with Cons.prems show ?thesis by (simp add: folders_loop_step del: folders_loop.simps(2))
  next
    case (Inr target)
    show ?thesis
    proof (cases target)
      case None
      with Inr Cons.prems Cons.IH show ?thesis
        by (simp add: folders_loop_step del: folders_loop.simps(2))
    next
      case (Some u)
      from Cons.prems Inr Some obtain r v where s: "rec u w = Some (r, v)"
        by (cases "rec u w") (auto simp: folders_loop_step simp del: folders_loop.simps(2))
      from rec[OF s] have s': "rec' u w = Some (r, v)" .
      from Cons.prems Inr Some s s' Cons.IH show ?thesis
        by (cases r) (simp_all add: folders_loop_step del: folders_loop.simps(2))
    qed
  qed
qed

lemma copy_folder_more_depth:
  "copy_folder n self url w = Some r \<Longrightarrow> copy_folder (Suc n) self url w = Some r"
proof (induction n arbitrary: url w r)
  case 0
  then show ?case by simp
next
  case (Suc n)
  have loop: "folders_loop (copy_folder n self) sfs c v = Some t
      \<Longrightarrow> folders_loop (copy_folder (Suc n) self) sfs c v = Some t" for sfs c v t
    using folders_loop_more_depth[of "copy_folder n self" "copy_folder (Suc n) self"] Suc.IH by blast
  have fo: "for_folders (copy_folder n self) coll c v = Some t
      \<Longrightarrow> for_folders (copy_folder (Suc n) self) coll c v = Some t" for coll c v t
    unfolding for_folders_def using loop[of "items coll" c v]
    by (cases "folders_loop (copy_folder n self) (items coll) c v") auto
  let ?w0 = "w\<lparr>get_folder_calls := get_folder_calls w @ [url]\<rparr>"
  show ?case
  proof (cases "get_folder self url")
    case (Inl e)
    with Suc.prems show ?thesis by simp
  next
    case (Inr fld)
    obtain x c w1 where ff: "for_files self (files fld) (0, 0) ?w0 = (x, c, w1)"
      by (cases "for_files self (files fld) (0, 0) ?w0") auto
    show ?thesis
    proof (cases x)
      case (Some e)
      with Inr ff Suc.prems show ?thesis by simp
    next
      case None
      from Suc.prems Inr ff None obtain t where
        t: "for_folders (copy_folder n self) (folders fld) c w1 = Some t"
        by (cases "for_folders (copy_folder n self) (folders fld) c w1") auto
      from fo[OF t] have t': "for_folders (copy_folder (Suc n) self) (folders fld) c w1 = Some t" .
      from Suc.prems Inr ff None t have
        "(case t of (None, c', w2) \<Rightarrow> Some (Inr c', w2)
                  | (Some e, c', w2) \<Rightarrow> Some (folder_handler url e c' w2)) = Some r"
        by simp
      with Inr ff None t' show ?thesis
        unfolding copy_folder.simps(2)[of "Suc n"] by (simp add: Let_def)
    qed
  qed
qed








lemmas run_defs = for_files_def for_folders_def copy_file_def copy_file_try_def
  put_object_def logger_def get_relative_path_def startswith_def lstrip_def
  init_s3_prefix_def rstrip_def folder_handler_def merge_def Let_def


subsection \<open>What one copy does to the destination\<close>

text \<open>
  C8, as stated, fails: a copy whose fetch fails makes no write attempt at all, so the
  number of write attempts of an invocation is not always one. Here reading
  \<^verbatim>\<open>file2.txt\<close> raises; the outcome is \<open>Error\<close> and \<^verbatim>\<open>put_object\<close> was never called.
\<close>

theorem copy_file_without_write_counterexample:
  "fst (copy_file example_site (file_at docs ''file2.txt'') empty_world) = Inr Error
   \<and> length (put_calls (snd (copy_file example_site (file_at docs ''file2.txt'') empty_world)))
       \<noteq> length (put_calls empty_world) + 1"
  by (simp add: example_defs run_defs)

text \<open>
  C8, amended. One copy of a file that carries its path never raises and makes at most
  one write attempt, with no retry: none when the fetch fails, exactly one, with the
  mapped key and the fetched content, when it succeeds. A write that succeeds replaces
  whatever the destination held under the key by the fetched content, and the outcome
  is \<open>Success\<close>. A failure of the fetch or of the write leaves the stored objects as they
  were, logs the source path with the error, and the outcome is \<open>Error\<close>.
\<close>

theorem copy_file_effect:
  assumes "getitem (properties file_obj) ''ServerRelativeUrl'' = Inr url"
  shows "\<exists>out w'. copy_file self file_obj w = (Inr out, w')
     \<and> (case open_binary self url of
          Inl e \<Rightarrow>
            out = Error \<and> put_calls w' = put_calls w \<and> s3_objects w' = s3_objects w
            \<and> logged w' = logged w @ [(ERROR, ''Error copying file '' @ url @ '': '' @ str_exc e)]
        | Inr file_content \<Rightarrow>
            put_calls w' = put_calls w @ [(s3_bucket self, s3_key self url, file_content)]
            \<and> (case put_object_raises self (s3_bucket self) (s3_key self url) file_content of
                 Some e \<Rightarrow>
                   out = Error \<and> s3_objects w' = s3_objects w
                   \<and> last (logged w') = (ERROR, ''Error copying file '' @ url @ '': '' @ str_exc e)
               | None \<Rightarrow>
                   out = Success
                   \<and> map_of (s3_objects w')
                       = (map_of (s3_objects w))((s3_bucket self, s3_key self url) \<mapsto> file_content)))"
proof (cases "open_binary self url")
  case (Inl e)
  with assms show ?thesis
    by (simp add: copy_file_def copy_file_try_cases logger_def)
next
  case (Inr file_content)
  show ?thesis
  proof (cases "put_object_raises self (s3_bucket self) (s3_key self url) file_content")
    case None
    with Inr assms show ?thesis
      by (simp add: copy_file_def copy_file_try_cases put_object_def logger_def Let_def
          AList.update_conv')
  next
    case (Some e)
    with Inr assms show ?thesis
      by (simp add: copy_file_def copy_file_try_cases put_object_def logger_def Let_def)
  qed
qed

theorem copy_file_effect_witness:
  "getitem (properties (file_at docs ''file1.txt'')) ''ServerRelativeUrl'' = Inr (docs @ ''/file1.txt'')
   \<and> s3_objects stale_world
       = [((''test-bucket'', ''test-prefix/Shared Documents/file1.txt''), ''an older and longer content'')]
   \<and> (\<exists>w'. copy_file example_site (file_at docs ''file1.txt'') stale_world = (Inr Success, w')
         \<and> put_calls w' = [(''test-bucket'', ''test-prefix/Shared Documents/file1.txt'', ''test file content'')]
         \<and> map_of (s3_objects w') (''test-bucket'', ''test-prefix/Shared Documents/file1.txt'')
             = Some ''test file content'')"
proof -
  have u: "getitem (properties (file_at docs ''file1.txt'')) ''ServerRelativeUrl'' = Inr (docs @ ''/file1.txt'')"
    by (simp add: getitem_def file_at_def)
  have st: "s3_objects stale_world
       = [((''test-bucket'', ''test-prefix/Shared Documents/file1.txt''), ''an older and longer content'')]"
    by (simp add: stale_world_def)
  have ob: "open_binary example_site (docs @ ''/file1.txt'') = Inr ''test file content''"
    by (simp add: example_site_def docs_def)
  have k: "s3_key example_site (docs @ ''/file1.txt'') = ''test-prefix/Shared Documents/file1.txt''"
    by (simp add: s3_key_def example_site_def docs_def run_defs)
  have b: "s3_bucket example_site = ''test-bucket''" by (simp add: example_site_def)
  have pr: "put_object_raises example_site ''test-bucket'' ''test-prefix/Shared Documents/file1.txt''
      ''test file content'' = None" by (simp add: example_site_def)
  have pc: "put_calls stale_world = []" by (simp add: stale_world_def empty_world_def)
  from copy_file_effect [OF u, where self = example_site and w = stale_world]
  obtain out w' where r: "copy_file example_site (file_at docs ''file1.txt'') stale_world = (Inr out, w')"
    and "out = Success"
    and "put_calls w' = put_calls stale_world @ [(''test-bucket'', ''test-prefix/Shared Documents/file1.txt'', ''test file content'')]"
    and "map_of (s3_objects w')
          = (map_of (s3_objects stale_world))((''test-bucket'', ''test-prefix/Shared Documents/file1.txt'') \<mapsto> ''test file content'')"
    by (auto simp: ob k b pr)
  with pc u st show ?thesis by auto
qed

subsection \<open>An exception that leaves a loop\<close>

lemma files_loop_append:
  "files_loop self (xs @ ys) c w =
     (case files_loop self xs c w of
        (None, c', w') \<Rightarrow> files_loop self ys c' w'
      | (Some e, c', w') \<Rightarrow> (Some e, c', w'))"
  by (induction xs arbitrary: c w) (simp_all split: prod.splits sum.splits outcome.splits)

lemma folders_loop_append:
  "folders_loop rec (xs @ ys) c w =
     (case folders_loop rec xs c w of
        None \<Rightarrow> None
      | Some (None, c', w') \<Rightarrow> folders_loop rec ys c' w'
      | Some (Some e, c', w') \<Rightarrow> Some (Some e, c', w'))"
  by (induction xs arbitrary: c w) (simp_all split: prod.splits sum.splits option.splits)

lemma copy_file_without_path:
  "\<not> carries_path file_obj \<Longrightarrow>
   copy_file self file_obj w = (Inl (KeyError ''ServerRelativeUrl''), w)"
  by (simp add: carries_path_def copy_file_def copy_file_try_def getitem_def)

text \<open>
  C10. When an exception leaves the file loop or the subfolder loop, the folder is not
  reported atomically: \<^verbatim>\<open>copy_folder\<close> returns the counts reached so far with one
  more error, and what was not yet processed is neither run nor counted. For the file
  loop: if the files \<open>done\<close> carry their paths and the next one, \<open>bad\<close>, does not (the
  lookup in the handler's message raises again), the result is the counts of \<open>done\<close> alone
  plus one error and the world is the one after \<open>done\<close> plus one log line, whatever files
  follow and whatever subfolders there are. For the subfolder loop: if the files gave
  \<open>c\<close>, the subfolders \<open>sdone\<close> brought the counts to \<open>c'\<close>, and the lookups for the next
  one raise, the result is \<open>c'\<close> plus one error, whatever subfolders follow.
\<close>

theorem escaping_exception_keeps_partial_counts:
  assumes "get_folder self folder_url = Inr fld"
  shows "(items (files fld) = done @ bad # rest \<and> list_all carries_path done \<and> \<not> carries_path bad \<longrightarrow>
           (\<exists>w1. files_loop self done (0, 0) (w\<lparr>get_folder_calls := get_folder_calls w @ [folder_url]\<rparr>)
                   = (None, (int (length done) - int (length (filter (fetch_or_write_fails self) done)),
                             int (length (filter (fetch_or_write_fails self) done))), w1)
               \<and> copy_folder (Suc n) self folder_url w
                   = Some (Inr (int (length done) - int (length (filter (fetch_or_write_fails self) done)),
                                int (length (filter (fetch_or_write_fails self) done)) + 1),
                           logger ERROR (''Error processing folder '' @ folder_url @ '': ''
                                           @ str_exc (KeyError ''ServerRelativeUrl'')) w1)))
       \<and> (for_files self (files fld) (0, 0) (w\<lparr>get_folder_calls := get_folder_calls w @ [folder_url]\<rparr>)
             = (None, c, w1)
          \<and> items (folders fld) = sdone @ sbad # srest
          \<and> folders_loop (copy_folder n self) sdone c w1 = Some (None, c', w2)
          \<and> folder_target sbad = Inl e \<longrightarrow>
           copy_folder (Suc n) self folder_url w
             = Some (Inr (fst c', snd c' + 1),
                     logger ERROR (''Error processing folder '' @ folder_url @ '': '' @ str_exc e) w2))"
proof (intro conjI impI)
  let ?w0 = "w\<lparr>get_folder_calls := get_folder_calls w @ [folder_url]\<rparr>"
  let ?k = "int (length (filter (fetch_or_write_fails self) done))"
  assume a: "items (files fld) = done @ bad # rest \<and> list_all carries_path done \<and> \<not> carries_path bad"
  from files_loop_counts[of "done" self "(0, 0)" ?w0] a obtain v where
    d: "files_loop self done (0, 0) ?w0 = (None, (int (length done) - ?k, ?k), v)" by auto
  from a have b: "copy_file self bad v = (Inl (KeyError ''ServerRelativeUrl''), v)"
    by (simp add: copy_file_without_path)
  from a d b have "files_loop self (items (files fld)) (0, 0) ?w0
      = (Some (KeyError ''ServerRelativeUrl''), (int (length done) - ?k, ?k), v)"
    by (simp add: files_loop_append)
  then have "copy_folder (Suc n) self folder_url w
      = Some (Inr (int (length done) - ?k, ?k + 1),
              logger ERROR (''Error processing folder '' @ folder_url @ '': ''
                              @ str_exc (KeyError ''ServerRelativeUrl'')) v)"
    using assms by (simp add: for_files_def folder_handler_def)
  with d show "\<exists>w1. files_loop self done (0, 0) ?w0 = (None, (int (length done) - ?k, ?k), w1)
      \<and> copy_folder (Suc n) self folder_url w
          = Some (Inr (int (length done) - ?k, ?k + 1),
                  logger ERROR (''Error processing folder '' @ folder_url @ '': ''
                                  @ str_exc (KeyError ''ServerRelativeUrl'')) w1)"
    by blast
next
  let ?w0 = "w\<lparr>get_folder_calls := get_folder_calls w @ [folder_url]\<rparr>"
  assume a: "for_files self (files fld) (0, 0) ?w0 = (None, c, w1)
          \<and> items (folders fld) = sdone @ sbad # srest
          \<and> folders_loop (copy_folder n self) sdone c w1 = Some (None, c', w2)
          \<and> folder_target sbad = Inl e"
  then have "folders_loop (copy_folder n self) (items (folders fld)) c w1 = Some (Some e, c', w2)"
    by (simp add: folders_loop_append folders_loop_step del: folders_loop.simps(2))
  then show "copy_folder (Suc n) self folder_url w
             = Some (Inr (fst c', snd c' + 1),
                     logger ERROR (''Error processing folder '' @ folder_url @ '': '' @ str_exc e) w2)"
    using assms a by (simp add: for_folders_def folder_handler_def)
qed

theorem escaping_exception_keeps_partial_counts_witness:
  "get_folder example_site ''/sites/test/Broken''
     = Inr (listing [file_at docs ''file1.txt'', \<lparr>properties = [(''Name'', ''lost.txt'')]\<rparr>,
                     file_at docs ''file3.txt''] [file_at docs ''sub''])
   \<and> list_all carries_path [file_at docs ''file1.txt'']
   \<and> \<not> carries_path \<lparr>properties = [(''Name'', ''lost.txt'')]\<rparr>
   \<and> (\<exists>w'. copy_folder (Suc (Suc 0)) example_site ''/sites/test/Broken'' empty_world = Some (Inr (1, 1), w')
         \<and> length (put_calls w') = 1 \<and> get_folder_calls w' = [''/sites/test/Broken''])
   \<and> get_folder example_site ''/sites/test/Unnamed''
     = Inr (listing [file_at docs ''file1.txt''] [file_at docs ''sub'', \<lparr>properties = []\<rparr>, file_at docs ''sub''])
   \<and> folder_target \<lparr>properties = []\<rparr> = Inl (KeyError ''Name'')
   \<and> (\<exists>w'. copy_folder (Suc (Suc 0)) example_site ''/sites/test/Unnamed'' empty_world = Some (Inr (2, 1), w')
         \<and> length (put_calls w') = 2
         \<and> get_folder_calls w' = [''/sites/test/Unnamed'', docs @ ''/sub''])"
proof -
  let ?lost = "\<lparr>properties = [(''Name'', ''lost.txt'')]\<rparr>"
  let ?broken = "listing [file_at docs ''file1.txt'', ?lost, file_at docs ''file3.txt''] [file_at docs ''sub'']"
  let ?unnamed = "listing [file_at docs ''file1.txt''] [file_at docs ''sub'', \<lparr>properties = []\<rparr>, file_at docs ''sub'']"
  let ?wb = "empty_world\<lparr>get_folder_calls := get_folder_calls empty_world @ [''/sites/test/Broken'']\<rparr>"
  let ?wu = "empty_world\<lparr>get_folder_calls := get_folder_calls empty_world @ [''/sites/test/Unnamed'']\<rparr>"
  have gb: "get_folder example_site ''/sites/test/Broken'' = Inr ?broken"
    by (simp add: example_site_def example_get_folder_def docs_def)
  have gu: "get_folder example_site ''/sites/test/Unnamed'' = Inr ?unnamed"
    by (simp add: example_site_def example_get_folder_def docs_def)
  have ib: "items (files ?broken) = [file_at docs ''file1.txt''] @ ?lost # [file_at docs ''file3.txt'']"
    by (simp add: listing_def)
  have cp: "list_all carries_path [file_at docs ''file1.txt'']" "\<not> carries_path ?lost"
    by (simp_all add: carries_path_def file_at_def)
  have k: "length (filter (fetch_or_write_fails example_site) [file_at docs ''file1.txt'']) = 0"
    by (simp add: fetch_or_write_fails_def example_defs)
  note T = escaping_exception_keeps_partial_counts [OF gb, where n = "Suc 0" and w = empty_world
      and ?done = "[file_at docs ''file1.txt'']" and bad = ?lost and rest = "[file_at docs ''file3.txt'']"]
  from T ib cp obtain v where
    v1': "files_loop example_site [file_at docs ''file1.txt''] (0, 0) ?wb
      = (None, (int (length [file_at docs ''file1.txt''])
                  - int (length (filter (fetch_or_write_fails example_site) [file_at docs ''file1.txt''])),
                int (length (filter (fetch_or_write_fails example_site) [file_at docs ''file1.txt'']))), v)"
    and v2': "copy_folder (Suc (Suc 0)) example_site ''/sites/test/Broken'' empty_world
      = Some (Inr (int (length [file_at docs ''file1.txt''])
                  - int (length (filter (fetch_or_write_fails example_site) [file_at docs ''file1.txt''])),
                int (length (filter (fetch_or_write_fails example_site) [file_at docs ''file1.txt''])) + 1),
              logger ERROR (''Error processing folder '' @ ''/sites/test/Broken'' @ '': ''
                        @ str_exc (KeyError ''ServerRelativeUrl'')) v)"
    by blast
  have v1: "files_loop example_site [file_at docs ''file1.txt''] (0, 0) ?wb = (None, (1, 0), v)"
    using v1' unfolding k by (simp del: files_loop.simps)
  have v2: "copy_folder (Suc (Suc 0)) example_site ''/sites/test/Broken'' empty_world
      = Some (Inr (1, 1), logger ERROR (''Error processing folder '' @ ''/sites/test/Broken'' @ '': ''
                        @ str_exc (KeyError ''ServerRelativeUrl'')) v)"
    using v2' unfolding k by (simp del: copy_folder.simps)
  from v1 have "length (put_calls v) = 1 \<and> get_folder_calls v = [''/sites/test/Broken'']"
    by (auto simp: example_defs run_defs)
  with v2 have A: "\<exists>w'. copy_folder (Suc (Suc 0)) example_site ''/sites/test/Broken'' empty_world = Some (Inr (1, 1), w')
         \<and> length (put_calls w') = 1 \<and> get_folder_calls w' = [''/sites/test/Broken'']"
    by (simp add: logger_def del: copy_folder.simps)
  have "\<exists>w1. for_files example_site (files ?unnamed) (0, 0) ?wu = (None, (1, 0), w1)"
    by (simp add: example_defs run_defs)
  then obtain w1 where f: "for_files example_site (files ?unnamed) (0, 0) ?wu = (None, (1, 0), w1)" ..
  then have w1: "length (put_calls w1) = 1 \<and> get_folder_calls w1 = [''/sites/test/Unnamed'']"
    by (auto simp: example_defs run_defs)
  have iu: "items (folders ?unnamed) = [file_at docs ''sub''] @ \<lparr>properties = []\<rparr> # [file_at docs ''sub'']"
    by (simp add: listing_def)
  have "\<exists>w2. folders_loop (copy_folder (Suc 0) example_site) [file_at docs ''sub''] (1, 0) w1 = Some (None, (2, 0), w2)
      \<and> length (put_calls w2) = 2 \<and> get_folder_calls w2 = [''/sites/test/Unnamed'', docs @ ''/sub'']"
    using w1 by (simp add: example_defs run_defs)
  then obtain w2 where
    s: "folders_loop (copy_folder (Suc 0) example_site) [file_at docs ''sub''] (1, 0) w1 = Some (None, (2, 0), w2)"
    and w2: "length (put_calls w2) = 2 \<and> get_folder_calls w2 = [''/sites/test/Unnamed'', docs @ ''/sub'']"
    by blast
  have t: "folder_target \<lparr>properties = []\<rparr> = Inl (KeyError ''Name'')"
    by (simp add: folder_target_def getitem_def)
  note U = escaping_exception_keeps_partial_counts [OF gu, where n = "Suc 0" and w = empty_world
      and c = "(1, 0)" and ?w1.0 = w1 and sdone = "[file_at docs ''sub'']" and sbad = "\<lparr>properties = []\<rparr>"
      and srest = "[file_at docs ''sub'']" and c' = "(2, 0)" and ?w2.0 = w2 and e = "KeyError ''Name''"]
  from U f iu s t
  have "copy_folder (Suc (Suc 0)) example_site ''/sites/test/Unnamed'' empty_world
      = Some (Inr (fst (2::int, 0::int), snd (2::int, 0::int) + 1),
              logger ERROR (''Error processing folder '' @ ''/sites/test/Unnamed'' @ '': ''
                        @ str_exc (KeyError ''Name'')) w2)"
    by blast
  then have "copy_folder (Suc (Suc 0)) example_site ''/sites/test/Unnamed'' empty_world
      = Some (Inr (2, 1), logger ERROR (''Error processing folder '' @ ''/sites/test/Unnamed'' @ '': ''
                        @ str_exc (KeyError ''Name'')) w2)"
    by (simp del: copy_folder.simps)
  with w2 have B: "\<exists>w'. copy_folder (Suc (Suc 0)) example_site ''/sites/test/Unnamed'' empty_world = Some (Inr (2, 1), w')
         \<and> length (put_calls w') = 2
         \<and> get_folder_calls w' = [''/sites/test/Unnamed'', docs @ ''/sub'']"
    by (simp add: logger_def del: copy_folder.simps)
  from gb cp A gu t B show ?thesis by blast
qed

end
